theory Spec2Isabelle
  imports Complex_Main "HOL-Library.Word"
begin

section \<open>The Wide and Deep model of wide\_deep\_utils.py\<close>

text \<open>
  The module assembles a network from the tensor framework's layers. The embedding
  follows the module line by line; of the framework it models what the module calls:
  shapes, index and key checks, integer arithmetic on 64-bit index tensors (CPU
  semantics), and the order in which errors are raised. Three things of the framework
  are arguments of the model, so that every result holds for each of their values:
  \<^item> the floating-point arithmetic on tensor entries (record \<open>torch\<close>): only the range
    of the score depends on rounding, and for it float32 rounding is written out
    (\<open>round_f32\<close>);
  \<^item> the values the initialisers write into the parameters at construction (\<open>init\<close>);
  \<^item> the random generator that dropout draws from (a state of type \<open>'g\<close>).
  Memory is not modelled: an allocation whose sizes fit the framework's 64-bit sizes
  succeeds.
\<close>

subsection \<open>Errors, tensors, hyperparameters\<close>

text \<open>The exceptions by class; a key error carries the key.\<close>

datatype error = IndexError | KeyError string | TypeError | ValueError | RuntimeError

type_synonym int64 = "64 word"

text \<open>A two-dimensional tensor of shape \<open>(length rows, ncols)\<close>; the column count is
  kept apart from the rows because a tensor with no rows still has one.\<close>

record 'e tensor =
  ncols :: nat
  rows :: "'e list list"

text \<open>The frozen dataclass. Its integer fields are Python integers: nothing in the
  module checks their sign. The dictionary \<open>dnn_additional_embeddings_sizes\<close> is the list
  of its items in insertion order (a dictionary has no key twice). \<open>dnn_dropout\<close> is a
  Python float; the model only compares it with 0 and 1 and hands it to the noise draw,
  so it is a real number here.\<close>

record WideAndDeepHyperParams =
  user_dim :: int
  item_dim :: int
  crossed_feat_dim :: int
  dnn_hidden_units :: "int list"
  dnn_dropout :: real
  dnn_additional_embeddings_sizes :: "(string \<times> int \<times> int) list"
  dnn_cont_features :: int

definition default_hparams :: WideAndDeepHyperParams where
  "default_hparams =
     \<lparr>user_dim = 32, item_dim = 32, crossed_feat_dim = 1000,
      dnn_hidden_units = [128, 128], dnn_dropout = 0,
      dnn_additional_embeddings_sizes = [], dnn_cont_features = 0\<rparr>"

text \<open>What the module uses of the framework and does not define itself: the entry
  arithmetic, the conversion of a 64-bit integer entry to the floating type (type
  promotion in \<open>torch.cat\<close>), one draw of dropout noise (a Bernoulli sample with
  probability \<open>1 - p\<close> divided by \<open>1 - p\<close>) that advances the generator, and whether a
  module container already has an attribute of a given name.\<close>

record ('a, 'g) torch =
  f_dot :: "'a list \<Rightarrow> 'a list \<Rightarrow> 'a"
  f_add :: "'a \<Rightarrow> 'a \<Rightarrow> 'a"
  f_mul :: "'a \<Rightarrow> 'a \<Rightarrow> 'a"
  f_zero :: 'a
  f_relu :: "'a \<Rightarrow> 'a"
  f_sigmoid :: "'a \<Rightarrow> 'a"
  f_of_long :: "int64 \<Rightarrow> 'a"
  f_noise :: "real \<Rightarrow> 'g \<Rightarrow> 'a \<times> 'g"
  has_attr :: "string \<Rightarrow> bool"

subsection \<open>Layers\<close>

text \<open>A parameter tensor is its sizes and its entries by index.\<close>

record 'a Embedding =
  num_embeddings :: nat
  embedding_dim :: nat
  emb_weight :: "nat \<Rightarrow> nat \<Rightarrow> 'a"

text \<open>\<open>Linear fin fout W b\<close> has weight \<open>W\<close> of shape \<open>(fout, fin)\<close> and bias \<open>b\<close>;
  \<open>Dropout p training\<close> carries the module's own \<open>training\<close> flag.\<close>

datatype 'a layer =
    Linear nat nat "nat \<Rightarrow> nat \<Rightarrow> 'a" "nat \<Rightarrow> 'a"
  | Dropout real bool
  | ReLU
  | Sigmoid

record 'a WideAndDeepModel =
  hparams :: WideAndDeepHyperParams
  n_users :: int
  n_items :: int
  users_emb :: "'a Embedding"
  items_emb :: "'a Embedding"
  additional_embs :: "(string \<times> 'a Embedding) list"
  deep :: "'a layer list"
  head :: "'a layer list"

text \<open>The parameters by name; \<open>init p r c\<close> is the entry \<open>(r, c)\<close> that the
  initialisers leave in parameter \<open>p\<close> (a bias has the row 0 only).\<close>

datatype param =
    UsersEmb | ItemsEmb | AdditionalEmb string
  | DeepWeight nat | DeepBias nat | HeadWeight | HeadBias

type_synonym 'a init = "param \<Rightarrow> nat \<Rightarrow> nat \<Rightarrow> 'a"

text \<open>A tensor size must be a non-negative 64-bit integer.\<close>

definition size_ok :: "int \<Rightarrow> bool" where
  "size_ok n = (0 \<le> n \<and> n < 2 ^ 63)"

definition new_Embedding :: "(nat \<Rightarrow> nat \<Rightarrow> 'a) \<Rightarrow> int \<Rightarrow> int \<Rightarrow> error + 'a Embedding" where
  "new_Embedding w num d =
     (if size_ok num \<and> size_ok d
      then Inr \<lparr>num_embeddings = nat num, embedding_dim = nat d, emb_weight = w\<rparr>
      else Inl RuntimeError)"

definition new_Linear ::
  "(nat \<Rightarrow> nat \<Rightarrow> 'a) \<Rightarrow> (nat \<Rightarrow> 'a) \<Rightarrow> int \<Rightarrow> int \<Rightarrow> error + 'a layer" where
  "new_Linear w b fin fout =
     (if size_ok fout \<and> size_ok fin then Inr (Linear (nat fin) (nat fout) w b)
      else Inl RuntimeError)"

text \<open>A module is created in training mode.\<close>

definition new_Dropout :: "real \<Rightarrow> error + 'a layer" where
  "new_Dropout p = (if p < 0 \<or> 1 < p then Inl ValueError else Inr (Dropout p True))"

subsection \<open>Construction: \<open>WideAndDeepModel.__init__\<close>\<close>

text \<open>Line 38: the dictionary comprehension creates one table per declared feature, in
  the declared order.\<close>

fun new_additional ::
  "'a init \<Rightarrow> (string \<times> int \<times> int) list \<Rightarrow> error + (string \<times> 'a Embedding) list" where
  "new_additional init [] = Inr []"
| "new_additional init ((k, num, d) # rest) =
     (case new_Embedding (init (AdditionalEmb k)) num d of
        Inl e \<Rightarrow> Inl e
      | Inr emb \<Rightarrow>
          (case new_additional init rest of
             Inl e \<Rightarrow> Inl e
           | Inr embs \<Rightarrow> Inr ((k, emb) # embs)))"

text \<open>Line 37: \<open>nn.ModuleDict\<close> registers each table under its key and refuses a key
  that is an attribute of the container, holds a dot, or is empty.\<close>

fun ModuleDict ::
  "(string \<Rightarrow> bool) \<Rightarrow> (string \<times> 'b) list \<Rightarrow> error + (string \<times> 'b) list" where
  "ModuleDict attr [] = Inr []"
| "ModuleDict attr ((k, v) # rest) =
     (if attr k \<or> CHR ''.'' \<in> set k \<or> k = [] then Inl (KeyError k)
      else (case ModuleDict attr rest of
              Inl e \<Rightarrow> Inl e
            | Inr kvs \<Rightarrow> Inr ((k, v) # kvs)))"

text \<open>Lines 42 to 45: the total embedding width.\<close>

definition total_emb_dim :: "WideAndDeepHyperParams \<Rightarrow> (string \<times> 'a Embedding) list \<Rightarrow> int" where
  "total_emb_dim hp embs =
     foldl (\<lambda>acc (k, emb). acc + int (embedding_dim emb)) (user_dim hp + item_dim hp) embs"

text \<open>Lines 47 to 53: the loop over the hidden widths; \<open>j\<close> counts the iterations and
  \<open>prev\<close> is \<open>prev_output\<close>. It returns the layers appended and the last
  \<open>prev_output\<close>.\<close>

fun deep_layers ::
  "'a init \<Rightarrow> real \<Rightarrow> nat \<Rightarrow> int \<Rightarrow> int list \<Rightarrow> error + ('a layer list \<times> int)" where
  "deep_layers init p j prev [] = Inr ([], prev)"
| "deep_layers init p j prev (hu # hus) =
     (case new_Linear (init (DeepWeight j)) (init (DeepBias j) 0) prev hu of
        Inl e \<Rightarrow> Inl e
      | Inr lin \<Rightarrow>
          (case new_Dropout p of
             Inl e \<Rightarrow> Inl e
           | Inr dropout_layer \<Rightarrow>
               (case deep_layers init p (Suc j) hu hus of
                  Inl e \<Rightarrow> Inl e
                | Inr (ls, out) \<Rightarrow> Inr (lin # dropout_layer # ReLU # ls, out))))"

definition construct ::
  "('a, 'g) torch \<Rightarrow> 'a init \<Rightarrow> int \<Rightarrow> int \<Rightarrow> WideAndDeepHyperParams \<Rightarrow>
     error + 'a WideAndDeepModel" where
  "construct fw init num_users num_items hp =
     (case new_Embedding (init UsersEmb) num_users (user_dim hp) of
        Inl e \<Rightarrow> Inl e
      | Inr ue \<Rightarrow>
     (case new_Embedding (init ItemsEmb) num_items (item_dim hp) of
        Inl e \<Rightarrow> Inl e
      | Inr ie \<Rightarrow>
     (case new_additional init (dnn_additional_embeddings_sizes hp) of
        Inl e \<Rightarrow> Inl e
      | Inr tables \<Rightarrow>
     (case ModuleDict (has_attr fw) tables of
        Inl e \<Rightarrow> Inl e
      | Inr embs \<Rightarrow>
     (case deep_layers init (dnn_dropout hp) 0
             (dnn_cont_features hp + total_emb_dim hp embs) (dnn_hidden_units hp) of
        Inl e \<Rightarrow> Inl e
      | Inr (layers, prev_output) \<Rightarrow>
     (case new_Linear (init HeadWeight) (init HeadBias 0)
             (crossed_feat_dim hp + prev_output) 1 of
        Inl e \<Rightarrow> Inl e
      | Inr lin \<Rightarrow>
          Inr \<lparr>hparams = hp, n_users = num_users, n_items = num_items,
               users_emb = ue, items_emb = ie, additional_embs = embs,
               deep = layers, head = [lin, Sigmoid]\<rparr>))))))"

text \<open>\<open>model.train()\<close> and \<open>model.eval()\<close> (lines 115 and 128) set the flag of every
  submodule; only dropout reads it.\<close>

fun set_training :: "bool \<Rightarrow> 'a layer \<Rightarrow> 'a layer" where
  "set_training t (Dropout p _) = Dropout p t"
| "set_training t l = l"

definition train_mode :: "'a WideAndDeepModel \<Rightarrow> 'a WideAndDeepModel" where
  "train_mode m = m\<lparr>deep := map (set_training True) (deep m),
                     head := map (set_training True) (head m)\<rparr>"

definition eval_mode :: "'a WideAndDeepModel \<Rightarrow> 'a WideAndDeepModel" where
  "eval_mode m = m\<lparr>deep := map (set_training False) (deep m),
                    head := map (set_training False) (head m)\<rparr>"

subsection \<open>The framework's operations on tensors\<close>

text \<open>\<open>nn.Embedding.forward\<close> on a one-dimensional index tensor: one row of the
  table per index; an index outside the table raises.\<close>

definition embedding :: "'a Embedding \<Rightarrow> int64 list \<Rightarrow> error + 'a tensor" where
  "embedding emb idx =
     (if list_all (\<lambda>i. 0 \<le> sint i \<and> sint i < int (num_embeddings emb)) idx
      then Inr \<lparr>ncols = embedding_dim emb,
                rows = map (\<lambda>i. map (emb_weight emb (nat (sint i))) [0..<embedding_dim emb]) idx\<rparr>
      else Inl IndexError)"

text \<open>\<open>torch.cat(ts, dim=1)\<close>: \<open>None\<close> in the list is a type error, tensors with
  different numbers of rows cannot be joined.\<close>

fun tensors_of :: "'e tensor option list \<Rightarrow> error + 'e tensor list" where
  "tensors_of [] = Inr []"
| "tensors_of (None # ts) = Inl TypeError"
| "tensors_of (Some t # ts) =
     (case tensors_of ts of Inl e \<Rightarrow> Inl e | Inr xs \<Rightarrow> Inr (t # xs))"

definition cat :: "'e tensor option list \<Rightarrow> error + 'e tensor" where
  "cat ts =
     (case tensors_of ts of
        Inl e \<Rightarrow> Inl e
      | Inr [] \<Rightarrow> Inl RuntimeError
      | Inr (x # xs) \<Rightarrow>
          (if list_all (\<lambda>t. length (rows t) = length (rows x)) xs
           then Inr \<lparr>ncols = sum_list (map ncols (x # xs)),
                     rows = map (\<lambda>r. concat (map (\<lambda>t. rows t ! r) (x # xs)))
                              [0..<length (rows x)]\<rparr>
           else Inl RuntimeError))"

text \<open>A Python integer operand of an int64 tensor must fit 64 bits.\<close>

definition to_long :: "int \<Rightarrow> error + int64" where
  "to_long n = (if - (2 ^ 63) \<le> n \<and> n < 2 ^ 63 then Inr (word_of_int n) else Inl RuntimeError)"

text \<open>\<open>%\<close> on an int64 tensor is \<open>torch.remainder\<close>: the result has the sign of the
  divisor, as Python's \<open>%\<close> and as \<open>mod\<close> on \<open>int\<close>; a zero divisor raises as soon
  as there is an entry.\<close>

definition remainder :: "int64 list \<Rightarrow> int64 \<Rightarrow> error + int64 list" where
  "remainder xs b =
     (if b = 0 \<and> xs \<noteq> [] then Inl RuntimeError
      else Inr (map (\<lambda>a. word_of_int (sint a mod sint b)) xs))"

text \<open>\<open>nn.functional.one_hot\<close> on a one-dimensional int64 tensor: a tensor of
  zeros with a 1 scattered at each row's index. \<open>num_classes = -1\<close> asks for the
  largest index plus one.\<close>

definition one_hot :: "int64 list \<Rightarrow> int \<Rightarrow> error + int64 tensor" where
  "one_hot idx num_classes =
     (if idx = [] then
        (if num_classes \<le> 0 then Inl RuntimeError
         else Inr \<lparr>ncols = nat num_classes, rows = []\<rparr>)
      else if list_ex (\<lambda>x. sint x < 0) idx then Inl RuntimeError
      else if num_classes \<noteq> - 1 \<and> num_classes \<le> foldr max (map sint idx) 0
        then Inl RuntimeError
      else
        (let nc = (if num_classes = - 1 then foldr max (map sint idx) 0 + 1 else num_classes)
         in Inr \<lparr>ncols = nat nc,
                 rows = map (\<lambda>x. (replicate (nat nc) 0)[nat (sint x) := 1]) idx\<rparr>))"

definition to_float :: "('a, 'g) torch \<Rightarrow> int64 tensor \<Rightarrow> 'a tensor" where
  "to_float fw t = \<lparr>ncols = ncols t, rows = map (map (f_of_long fw)) (rows t)\<rparr>"

text \<open>\<open>nn.Linear.forward\<close>: every row times the transposed weight, plus the bias.\<close>

definition linear ::
  "('a, 'g) torch \<Rightarrow> nat \<Rightarrow> nat \<Rightarrow> (nat \<Rightarrow> nat \<Rightarrow> 'a) \<Rightarrow> (nat \<Rightarrow> 'a) \<Rightarrow> 'a tensor \<Rightarrow>
     error + 'a tensor" where
  "linear fw fin fout w b x =
     (if ncols x = fin
      then Inr \<lparr>ncols = fout,
                rows = map (\<lambda>r. map (\<lambda>j. f_add fw (f_dot fw r (map (w j) [0..<fin])) (b j))
                                   [0..<fout]) (rows x)\<rparr>
      else Inl RuntimeError)"

definition pointwise :: "('a \<Rightarrow> 'a) \<Rightarrow> 'a tensor \<Rightarrow> 'a tensor" where
  "pointwise f x = \<lparr>ncols = ncols x, rows = map (map f) (rows x)\<rparr>"

text \<open>Dropout noise, drawn entry by entry in row-major order and multiplied in.\<close>

fun noise_row :: "('g \<Rightarrow> 'a \<times> 'g) \<Rightarrow> ('a \<Rightarrow> 'a \<Rightarrow> 'a) \<Rightarrow> 'a list \<Rightarrow> 'g \<Rightarrow> 'a list \<times> 'g" where
  "noise_row draw m [] g = ([], g)"
| "noise_row draw m (x # xs) g =
     (case draw g of (n, g') \<Rightarrow>
        (case noise_row draw m xs g' of (ys, g'') \<Rightarrow> (m x n # ys, g'')))"

fun noise_rows ::
  "('g \<Rightarrow> 'a \<times> 'g) \<Rightarrow> ('a \<Rightarrow> 'a \<Rightarrow> 'a) \<Rightarrow> 'a list list \<Rightarrow> 'g \<Rightarrow> 'a list list \<times> 'g" where
  "noise_rows draw m [] g = ([], g)"
| "noise_rows draw m (r # rs) g =
     (case noise_row draw m r g of (r', g') \<Rightarrow>
        (case noise_rows draw m rs g' of (rs', g'') \<Rightarrow> (r' # rs', g'')))"

text \<open>\<open>nn.Dropout.forward\<close>: the input itself when \<open>p = 0\<close>, outside training or on
  an empty tensor (the generator is not touched); zeros when \<open>p = 1\<close>; the input times
  fresh noise otherwise.\<close>

definition dropout ::
  "('a, 'g) torch \<Rightarrow> real \<Rightarrow> bool \<Rightarrow> 'a tensor \<Rightarrow> 'g \<Rightarrow> (error + 'a tensor) \<times> 'g" where
  "dropout fw p training x g =
     (if p < 0 \<or> 1 < p then (Inl ValueError, g)
      else if p = 0 \<or> \<not> training \<or> length (rows x) * ncols x = 0 then (Inr x, g)
      else if p = 1 then (Inr (pointwise (\<lambda>v. f_mul fw v (f_zero fw)) x), g)
      else (case noise_rows (f_noise fw p) (f_mul fw) (rows x) g of
              (rs, g') \<Rightarrow> (Inr \<lparr>ncols = ncols x, rows = rs\<rparr>, g')))"

fun apply_layer ::
  "('a, 'g) torch \<Rightarrow> 'a layer \<Rightarrow> 'a tensor \<Rightarrow> 'g \<Rightarrow> (error + 'a tensor) \<times> 'g" where
  "apply_layer fw (Linear fin fout w b) x g = (linear fw fin fout w b x, g)"
| "apply_layer fw (Dropout p training) x g = dropout fw p training x g"
| "apply_layer fw ReLU x g = (Inr (pointwise (f_relu fw) x), g)"
| "apply_layer fw Sigmoid x g = (Inr (pointwise (f_sigmoid fw) x), g)"

text \<open>\<open>nn.Sequential.forward\<close>: the layers in order; with no layer, the input.\<close>

fun sequential ::
  "('a, 'g) torch \<Rightarrow> 'a layer list \<Rightarrow> 'a tensor \<Rightarrow> 'g \<Rightarrow> (error + 'a tensor) \<times> 'g" where
  "sequential fw [] x g = (Inr x, g)"
| "sequential fw (l # ls) x g =
     (case apply_layer fw l x g of
        (Inl e, g') \<Rightarrow> (Inl e, g')
      | (Inr y, g') \<Rightarrow> sequential fw ls y g')"

subsection \<open>Scoring: \<open>WideAndDeepModel.forward\<close>\<close>

text \<open>Line 77: the list comprehension over the registered tables looks each key up in
  the caller's mapping, then indexes the table.\<close>

fun additional_lookup ::
  "(string \<times> 'a Embedding) list \<Rightarrow> (string \<rightharpoonup> int64 list) \<Rightarrow> error + 'a tensor list" where
  "additional_lookup [] additional_embeddings = Inr []"
| "additional_lookup ((k, emb) # rest) additional_embeddings =
     (case additional_embeddings k of
        None \<Rightarrow> Inl (KeyError k)
      | Some idx \<Rightarrow>
          (case embedding emb idx of
             Inl e \<Rightarrow> Inl e
           | Inr t \<Rightarrow>
               (case additional_lookup rest additional_embeddings of
                  Inl e \<Rightarrow> Inl e
                | Inr ts \<Rightarrow> Inr (t # ts))))"

text \<open>Lines 74 to 78.\<close>

definition all_embed ::
  "'a WideAndDeepModel \<Rightarrow> int64 list \<Rightarrow> int64 list \<Rightarrow> (string \<rightharpoonup> int64 list) \<Rightarrow>
     error + 'a tensor" where
  "all_embed m users items additional_embeddings =
     (case embedding (users_emb m) users of
        Inl e \<Rightarrow> Inl e
      | Inr ue \<Rightarrow>
     (case embedding (items_emb m) items of
        Inl e \<Rightarrow> Inl e
      | Inr ie \<Rightarrow>
     (case additional_lookup (additional_embs m) additional_embeddings of
        Inl e \<Rightarrow> Inl e
      | Inr ts \<Rightarrow> cat (map Some (ue # ie # ts)))))"

text \<open>Line 81, in int64 arithmetic: the product and the sum wrap around.\<close>

definition cross_product_idx :: "int \<Rightarrow> int \<Rightarrow> int64 list \<Rightarrow> int64 list \<Rightarrow> error + int64 list" where
  "cross_product_idx num_items cfd users items =
     (case to_long num_items of
        Inl e \<Rightarrow> Inl e
      | Inr n \<Rightarrow>
          (case to_long cfd of
             Inl e \<Rightarrow> Inl e
           | Inr c \<Rightarrow> remainder (map2 (\<lambda>u i. u * n + i) users items) c))"

text \<open>The state a call runs in: the module and the framework's random generator.\<close>

record ('a, 'g) runtime =
  model :: "'a WideAndDeepModel"
  generator :: 'g

text \<open>\<open>interactions\<close> is an int64 tensor of shape \<open>(batch, 2)\<close>, a row per
  interaction; \<open>additional_embeddings\<close> maps a feature name to a one-dimensional int64
  tensor; \<open>continuous_features\<close> is \<open>None\<close> or a tensor. The result is the returned
  tensor or the exception raised, with the state the call leaves.\<close>

definition forward ::
  "('a, 'g) torch \<Rightarrow> ('a, 'g) runtime \<Rightarrow> (int64 \<times> int64) list \<Rightarrow>
     (string \<rightharpoonup> int64 list) \<Rightarrow> 'a tensor option \<Rightarrow> (error + 'a tensor) \<times> ('a, 'g) runtime" where
  "forward fw s interactions additional_embeddings continuous_features =
     (let m = model s; users = map fst interactions; items = map snd interactions in
      case all_embed m users items additional_embeddings of
        Inl e \<Rightarrow> (Inl e, s)
      | Inr all \<Rightarrow>
     (case cross_product_idx (n_items m) (crossed_feat_dim (hparams m)) users items of
        Inl e \<Rightarrow> (Inl e, s)
      | Inr idx \<Rightarrow>
     (case one_hot idx (crossed_feat_dim (hparams m)) of
        Inl e \<Rightarrow> (Inl e, s)
      | Inr cross_product \<Rightarrow>
     (case (if dnn_cont_features (hparams m) > 0
            then cat [continuous_features, Some all] else Inr all) of
        Inl e \<Rightarrow> (Inl e, s)
      | Inr deep_input \<Rightarrow>
     (case sequential fw (deep m) deep_input (generator s) of
        (Inl e, g') \<Rightarrow> (Inl e, s\<lparr>generator := g'\<rparr>)
      | (Inr deep_output, g') \<Rightarrow>
     (case cat [Some (to_float fw cross_product), Some deep_output] of
        Inl e \<Rightarrow> (Inl e, s\<lparr>generator := g'\<rparr>)
      | Inr wide_deep \<Rightarrow>
     (case sequential fw (head m) wide_deep g' of
        (r, g'') \<Rightarrow> (r, s\<lparr>generator := g''\<rparr>))))))))"

subsection \<open>Valid batches and concrete data\<close>

text \<open>The invariant of an input batch: every user and item index is a row of its
  table, and every registered feature comes with one in-range index per interaction.\<close>

definition valid_batch ::
  "'a WideAndDeepModel \<Rightarrow> (int64 \<times> int64) list \<Rightarrow> (string \<rightharpoonup> int64 list) \<Rightarrow> bool" where
  "valid_batch m interactions additional_embeddings =
     (list_all (\<lambda>(u, i). 0 \<le> sint u \<and> sint u < int (num_embeddings (users_emb m)) \<and>
                          0 \<le> sint i \<and> sint i < int (num_embeddings (items_emb m)))
               interactions \<and>
      list_all (\<lambda>(k, emb). case additional_embeddings k of
                              None \<Rightarrow> False
                            | Some idx \<Rightarrow>
                                length idx = length interactions \<and>
                                list_all (\<lambda>i. 0 \<le> sint i \<and> sint i < int (num_embeddings emb)) idx)
               (additional_embs m))"

text \<open>The class name of a layer.\<close>

fun layer_kind :: "'a layer \<Rightarrow> string" where
  "layer_kind (Linear fin fout w b) = ''Linear''"
| "layer_kind (Dropout p t) = ''Dropout''"
| "layer_kind ReLU = ''ReLU''"
| "layer_kind Sigmoid = ''Sigmoid''"

text \<open>The continuous-feature argument fits the model: a matrix with one row per
  interaction and \<open>dnn_cont_features\<close> columns where the model has continuous features.\<close>

definition valid_continuous ::
  "WideAndDeepHyperParams \<Rightarrow> (int64 \<times> int64) list \<Rightarrow> 'a tensor option \<Rightarrow> bool" where
  "valid_continuous hp interactions continuous_features =
     (if 0 < dnn_cont_features hp
      then (case continuous_features of
              None \<Rightarrow> False
            | Some c \<Rightarrow> length (rows c) = length interactions \<and>
                        int (ncols c) = dnn_cont_features hp)
      else True)"

text \<open>An instance of the framework for the examples below: exact real arithmetic in
  place of the floating-point one, a counter as the generator (an even count drops the
  entry), and a few of the container's attribute names.\<close>

definition real_torch :: "(real, nat) torch" where
  "real_torch =
     \<lparr>f_dot = (\<lambda>xs ys. sum_list (map2 (*) xs ys)), f_add = (+), f_mul = (*), f_zero = 0,
      f_relu = max 0, f_sigmoid = (\<lambda>x. 1 / (1 + exp (- x))),
      f_of_long = (\<lambda>w. real_of_int (sint w)),
      f_noise = (\<lambda>p g. (if even g then 0 else 1 / (1 - p), Suc g)),
      has_attr = (\<lambda>k. k \<in> set [''keys'', ''items'', ''values'', ''training''])\<rparr>"

definition init0 :: "real init" where
  "init0 p r c = 1"

definition hp0 :: WideAndDeepHyperParams where
  "hp0 = \<lparr>user_dim = 1, item_dim = 2, crossed_feat_dim = 7, dnn_hidden_units = [2],
          dnn_dropout = 1 / 2, dnn_additional_embeddings_sizes = [(''genre'', 20, 4)],
          dnn_cont_features = 0\<rparr>"

text \<open>The model that \<open>construct real_torch init0 10 5 hp0\<close> returns
  (lemma \<open>construct_m0\<close>).\<close>

definition m0 :: "real WideAndDeepModel" where
  "m0 = \<lparr>hparams = hp0, n_users = 10, n_items = 5,
          users_emb = \<lparr>num_embeddings = 10, embedding_dim = 1, emb_weight = init0 UsersEmb\<rparr>,
          items_emb = \<lparr>num_embeddings = 5, embedding_dim = 2, emb_weight = init0 ItemsEmb\<rparr>,
          additional_embs =
            [(''genre'', \<lparr>num_embeddings = 20, embedding_dim = 4,
                          emb_weight = init0 (AdditionalEmb ''genre'')\<rparr>)],
          deep = [Linear 7 2 (init0 (DeepWeight 0)) (init0 (DeepBias 0) 0),
                  Dropout (1 / 2) True, ReLU],
          head = [Linear 9 1 (init0 HeadWeight) (init0 HeadBias 0), Sigmoid]\<rparr>"

text \<open>The same with two continuous features: what \<open>construct real_torch init0 10 5 hp1\<close>
  returns (lemma \<open>construct_m1\<close>).\<close>

definition hp1 :: WideAndDeepHyperParams where
  "hp1 = hp0\<lparr>dnn_cont_features := 2\<rparr>"

definition m1 :: "real WideAndDeepModel" where
  "m1 = m0\<lparr>hparams := hp1,
            deep := [Linear 9 2 (init0 (DeepWeight 0)) (init0 (DeepBias 0) 0),
                     Dropout (1 / 2) True, ReLU]\<rparr>"

text \<open>The model of the default hyperparameters, hidden widths \<open>(128, 128)\<close>, for 10
  users and 5 items (lemma \<open>construct_default\<close>).\<close>

definition m_default :: "real WideAndDeepModel" where
  "m_default =
     \<lparr>hparams = default_hparams, n_users = 10, n_items = 5,
      users_emb = \<lparr>num_embeddings = 10, embedding_dim = 32, emb_weight = init0 UsersEmb\<rparr>,
      items_emb = \<lparr>num_embeddings = 5, embedding_dim = 32, emb_weight = init0 ItemsEmb\<rparr>,
      additional_embs = [],
      deep = [Linear 64 128 (init0 (DeepWeight 0)) (init0 (DeepBias 0) 0), Dropout 0 True, ReLU,
              Linear 128 128 (init0 (DeepWeight 1)) (init0 (DeepBias 1) 0), Dropout 0 True, ReLU],
      head = [Linear 1128 1 (init0 HeadWeight) (init0 HeadBias 0), Sigmoid]\<rparr>"

text \<open>Hyperparameters for tables large enough for the int64 arithmetic of line 81 to
  wrap: one column per table, no hidden layer.\<close>

definition hp_wide :: WideAndDeepHyperParams where
  "hp_wide = \<lparr>user_dim = 1, item_dim = 1, crossed_feat_dim = 7, dnn_hidden_units = [],
              dnn_dropout = 0, dnn_additional_embeddings_sizes = [], dnn_cont_features = 0\<rparr>"

subsection \<open>Float32 rounding\<close>







section \<open>Properties\<close>

subsection \<open>Integer arithmetic of the wide branch\<close>

lemma sint_of_long: "- (2 ^ 63) \<le> k \<Longrightarrow> k < 2 ^ 63 \<Longrightarrow> sint (word_of_int k :: int64) = k"
  by (simp add: sint_sbintrunc' signed_take_bit_int_eq_self)

lemma to_long_fits: "- (2 ^ 63) \<le> k \<Longrightarrow> k < 2 ^ 63 \<Longrightarrow> to_long k = Inr (word_of_int k)"
  by (simp add: to_long_def)

lemma sint_mul_add:
  "sint (u * n + i :: int64) = signed_take_bit 63 (sint u * sint n + sint i)"
proof -
  have "u * n + i = word_of_int (sint u * sint n + sint i)"
    by simp
  then show ?thesis
    by (simp only: sint_sbintrunc') simp
qed

lemma sint_mod_pos:
  assumes "0 < c" "c < 2 ^ 63"
  shows "sint (word_of_int (a mod c) :: int64) = a mod c"
proof -
  have "0 \<le> a mod c" "a mod c < c" using assms by simp_all
  then show ?thesis using assms by (intro sint_of_long) linarith+
qed

lemma one_hot_row:
  "(replicate n (0::int64))[p := 1] = map (\<lambda>j. if j = p then 1 else 0) [0..<n]"
  by (rule nth_equalityI) (auto simp: nth_list_update)

lemma foldr_max_less:
  "list_all (\<lambda>x. x < c) xs \<Longrightarrow> 0 < c \<Longrightarrow> foldr max xs (0::int) < c"
  by (induction xs) auto

lemma remainder_pos:
  assumes "0 < c" "c < 2 ^ 63"
  shows "remainder xs (word_of_int c) = Inr (map (\<lambda>a. word_of_int (sint a mod c)) xs)"
proof -
  have "sint (word_of_int c :: int64) = c" using assms by (intro sint_of_long) linarith+
  moreover from this have "(word_of_int c :: int64) \<noteq> 0" using assms by auto
  ultimately show ?thesis by (simp add: remainder_def)
qed

text \<open>Line 81 when both scalars fit: the index is the remainder of the wrapped sum.\<close>

lemma cross_product_idx_eq:
  assumes "0 < cfd" "cfd < 2 ^ 63" "- (2 ^ 63) \<le> num_items" "num_items < 2 ^ 63"
  shows "cross_product_idx num_items cfd users items =
         Inr (map2 (\<lambda>u i. word_of_int (signed_take_bit 63 (sint u * num_items + sint i) mod cfd))
                users items)"
proof -
  have n: "sint (word_of_int num_items :: int64) = num_items"
    using assms by (intro sint_of_long)
  have "- (2 ^ 63) \<le> cfd" using assms by linarith
  then show ?thesis
    using assms
    by (simp add: cross_product_idx_def to_long_fits remainder_pos sint_mul_add n
        map_zip_map comp_def case_prod_unfold zip_map1 zip_map2)
qed

lemma cross_product_idx_total:
  assumes "0 < cfd" "cfd < 2 ^ 63" "size_ok num_items"
  shows "\<exists>idx. cross_product_idx num_items cfd (map fst xs) (map snd xs) = Inr idx \<and>
           length idx = length xs \<and> list_all (\<lambda>x. 0 \<le> sint x \<and> sint x < cfd) idx"
proof -
  have "- (2 ^ 63) \<le> num_items" "num_items < 2 ^ 63"
    using assms(3) by (simp_all add: size_ok_def)
  then show ?thesis
    using assms(1,2) by (auto simp: cross_product_idx_eq list_all_iff sint_mod_pos)
qed

lemma one_hot_in_range:
  assumes "0 < cfd" "list_all (\<lambda>x. 0 \<le> sint x \<and> sint x < cfd) idx"
  shows "\<exists>c. one_hot idx cfd = Inr c \<and> ncols c = nat cfd \<and> length (rows c) = length idx"
proof -
  have "\<not> list_ex (\<lambda>x. sint x < 0) idx"
    using assms(2) by (auto simp: list_all_iff list_ex_iff)
  moreover have "foldr max (map sint idx) 0 < cfd"
    using assms by (intro foldr_max_less) (auto simp: list_all_iff)
  moreover have "cfd \<noteq> - 1" using assms(1) by simp
  ultimately show ?thesis
    using assms(1) by (simp add: one_hot_def)
qed

text \<open>
  Claim C1, as amended. Let \<open>0 < crossed_feat_dim < 2^63\<close>, let \<open>num_items\<close> fit 64 bits
  and let \<open>user_index * num_items + item_index\<close> of every row of the batch fit a signed
  64-bit integer (the int64 tensor arithmetic of line 81 does not wrap). Then line 81
  computes, for every row, the index \<open>(user_index * num_items + item_index) mod
  crossed_feat_dim\<close>, and line 82 turns it into a row of \<open>crossed_feat_dim\<close> entries
  that is 1 at exactly that position and 0 elsewhere.
\<close>

theorem cross_product_one_hot_no_wrap:
  assumes "0 < cfd" "cfd < 2 ^ 63" "- (2 ^ 63) \<le> num_items" "num_items < 2 ^ 63"
    and nowrap: "list_all (\<lambda>(u, i). - (2 ^ 63) \<le> sint u * num_items + sint i \<and>
                                     sint u * num_items + sint i < 2 ^ 63) xs"
  shows "\<exists>idx. cross_product_idx num_items cfd (map fst xs) (map snd xs) = Inr idx \<and>
           map sint idx = map (\<lambda>(u, i). (sint u * num_items + sint i) mod cfd) xs \<and>
           one_hot idx cfd =
             Inr \<lparr>ncols = nat cfd,
                  rows = map (\<lambda>(u, i). map (\<lambda>j. if int j = (sint u * num_items + sint i) mod cfd
                                                  then 1 else 0) [0..<nat cfd]) xs\<rparr>"
proof -
  let ?v = "\<lambda>(u :: int64, i :: int64). (sint u * num_items + sint i) mod cfd"
  let ?idx = "map (\<lambda>p. word_of_int (?v p) :: int64) xs"
  have v: "0 \<le> ?v p \<and> ?v p < cfd" for p
    using assms(1) by (cases p) simp
  have sv: "sint (word_of_int (?v p) :: int64) = ?v p" for p
    using sint_mod_pos [OF assms(1,2)] by (cases p) simp
  have "cross_product_idx num_items cfd (map fst xs) (map snd xs) =
        Inr (map (\<lambda>(u, i). word_of_int (signed_take_bit 63 (sint u * num_items + sint i) mod cfd)) xs)"
    using assms(1-4) by (simp add: cross_product_idx_eq zip_map_fst_snd)
  also have "map (\<lambda>(u, i). word_of_int (signed_take_bit 63 (sint u * num_items + sint i) mod cfd)
                            :: int64) xs = ?idx"
    using nowrap by (auto simp: list_all_iff signed_take_bit_int_eq_self)
  finally have 1: "cross_product_idx num_items cfd (map fst xs) (map snd xs) = Inr ?idx" .
  have 2: "map sint ?idx = map ?v xs"
    using sv by (simp add: comp_def)
  have mx: "foldr max (map sint ?idx) 0 < cfd"
    using v sv assms(1) by (intro foldr_max_less) (auto simp: list_all_iff)
  have nneg: "\<not> list_ex (\<lambda>x. sint x < 0) ?idx"
  proof -
    have "0 \<le> sint (word_of_int ((sint a * num_items + sint b) mod cfd) :: int64)"
      for a b :: int64
      using v [of "(a, b)"] sv [of "(a, b)"] by simp
    then show ?thesis by (auto simp: list_ex_iff not_less)
  qed
  have row: "(replicate (nat cfd) (0::int64))[nat (sint (word_of_int (?v p) :: int64)) := 1] =
             map (\<lambda>j. if int j = ?v p then 1 else 0) [0..<nat cfd]" for p
  proof -
    have "int j = ?v p \<longleftrightarrow> j = nat (?v p)" for j using v [of p] by auto
    then show ?thesis by (simp add: sv one_hot_row)
  qed
  have 3: "one_hot ?idx cfd =
             Inr \<lparr>ncols = nat cfd,
                  rows = map (\<lambda>(u, i). map (\<lambda>j. if int j = (sint u * num_items + sint i) mod cfd
                                                  then 1 else 0) [0..<nat cfd]) xs\<rparr>"
  proof (cases "xs = []")
    case True
    then show ?thesis using assms(1) by (simp add: one_hot_def)
  next
    case False
    have "cfd \<noteq> - 1" using assms(1) by simp
    then show ?thesis
      using False nneg mx row
      by (simp add: one_hot_def comp_def case_prod_unfold)
  qed
  from 1 2 3 show ?thesis by blast
qed

text \<open>The scenario of the specification: 10 users, 5 items, 7 buckets; the interaction
  (user 3, item 4) falls into bucket \<open>(3 * 5 + 4) mod 7 = 5\<close>.\<close>

theorem cross_product_one_hot_scenario:
  "cross_product_idx 5 7 [3] [4] = Inr [5] \<and>
   one_hot [5] 7 = Inr \<lparr>ncols = 7, rows = [[0, 0, 0, 0, 0, 1, 0]]\<rparr>"
proof -
  obtain idx where idx: "cross_product_idx 5 7 [3] [4] = Inr idx"
    and oh: "one_hot idx 7 = Inr \<lparr>ncols = 7, rows = [[0, 0, 0, 0, 0, 1, 0]]\<rparr>"
    using cross_product_one_hot_no_wrap [of 7 5 "[(3, 4)]"] by (auto simp: upt_conv_Cons)
  have "cross_product_idx 5 7 [3] [4] = Inr [5]"
    by (simp add: cross_product_idx_def to_long_def remainder_def)
  with idx oh show ?thesis by simp
qed

text \<open>Claim C1 as stated fails where the int64 arithmetic wraps: with \<open>2^31\<close> items
  (and more than \<open>2^32\<close> users, so that user \<open>2^32\<close> is a row of the user table) and 7
  buckets, the interaction (user \<open>2^32\<close>, item 0) has \<open>(2^32 * 2^31 + 0) mod 7 = 1\<close>, but
  the product wraps to \<open>- 2^63\<close> and line 81 computes bucket 6. A call on this
  interaction does reach line 81 and returns (lemma \<open>forward_reaches_wrap\<close> below).\<close>

theorem cross_product_idx_wraps:
  "cross_product_idx (2 ^ 31) 7 [2 ^ 32] [0] = Inr [6] \<and>
   (sint (2 ^ 32 :: int64) * 2 ^ 31 + sint (0 :: int64)) mod 7 = 1"
  by (simp add: cross_product_idx_def to_long_def remainder_def)

text \<open>
  Claim C6. Whenever \<open>crossed_feat_dim > 0\<close>, every index that line 81 computes lies in
  \<open>[0, crossed_feat_dim)\<close>, for all user and item indices (also where the
  arithmetic wraps); and line 81 does compute one index per interaction as soon as
  \<open>crossed_feat_dim\<close> and \<open>num_items\<close> fit 64 bits.
\<close>

theorem cross_product_idx_in_range:
  assumes "0 < cfd"
  shows "(\<forall>idx. cross_product_idx num_items cfd (map fst xs) (map snd xs) = Inr idx \<longrightarrow>
            list_all (\<lambda>x. 0 \<le> sint x \<and> sint x < cfd) idx) \<and>
         (cfd < 2 ^ 63 \<and> - (2 ^ 63) \<le> num_items \<and> num_items < 2 ^ 63 \<longrightarrow>
            (\<exists>idx. cross_product_idx num_items cfd (map fst xs) (map snd xs) = Inr idx \<and>
                   length idx = length xs))"
proof (intro conjI allI impI)
  fix idx
  assume h: "cross_product_idx num_items cfd (map fst xs) (map snd xs) = Inr idx"
  then obtain n c where n: "to_long num_items = Inr n" and c: "to_long cfd = Inr c"
    and r: "remainder (map2 (\<lambda>u i. u * n + i) (map fst xs) (map snd xs)) c = Inr idx"
    by (auto simp: cross_product_idx_def split: sum.splits)
  have fits: "cfd < 2 ^ 63" and cw: "c = word_of_int cfd"
    using c by (auto simp: to_long_def split: if_splits)
  have "idx = map (\<lambda>a. word_of_int (sint a mod cfd))
                (map2 (\<lambda>u i. u * n + i) (map fst xs) (map snd xs))"
    using r remainder_pos [OF assms fits] by (simp add: cw)
  then show "list_all (\<lambda>x. 0 \<le> sint x \<and> sint x < cfd) idx"
    using assms fits by (simp add: list_all_iff sint_mod_pos)
next
  assume "cfd < 2 ^ 63 \<and> - (2 ^ 63) \<le> num_items \<and> num_items < 2 ^ 63"
  then show "\<exists>idx. cross_product_idx num_items cfd (map fst xs) (map snd xs) = Inr idx \<and>
                   length idx = length xs"
    using assms by (simp add: cross_product_idx_eq)
qed

text \<open>With 10 users, 5 items and 7 buckets: the first user with the first item, and
  the last user with the last item.\<close>

theorem cross_product_idx_in_range_extremes:
  "cross_product_idx 5 7 [0, 9] [0, 4] = Inr [0, 0] \<and>
   list_all (\<lambda>x. 0 \<le> sint x \<and> sint x < 7) [0, 0 :: int64]"
  using cross_product_idx_in_range [of 7 5 "[(0, 0), (9, 4)]"]
  by (simp add: cross_product_idx_def to_long_def remainder_def)

subsection \<open>What construction builds\<close>

lemma ModuleDict_Inr: "ModuleDict attr kvs = Inr kvs' \<Longrightarrow> kvs' = kvs"
  by (induction kvs arbitrary: kvs') (auto split: if_splits sum.splits)

lemma new_additional_Inr:
  "new_additional init sizes = Inr embs \<Longrightarrow>
   embs = map (\<lambda>(k, num, d). (k, \<lparr>num_embeddings = nat num, embedding_dim = nat d,
                                   emb_weight = init (AdditionalEmb k)\<rparr>)) sizes \<and>
   list_all (\<lambda>(k, num, d). size_ok num \<and> size_ok d) sizes"
  by (induction sizes arbitrary: embs)
     (auto simp: new_Embedding_def split: if_splits sum.splits)

lemma construct_tables:
  assumes "construct fw init nu ni hp = Inr m"
  shows "hparams m = hp" "n_users m = nu" "n_items m = ni"
    "users_emb m = \<lparr>num_embeddings = nat nu, embedding_dim = nat (user_dim hp),
                    emb_weight = init UsersEmb\<rparr>"
    "items_emb m = \<lparr>num_embeddings = nat ni, embedding_dim = nat (item_dim hp),
                    emb_weight = init ItemsEmb\<rparr>"
    "additional_embs m =
       map (\<lambda>(k, num, d). (k, \<lparr>num_embeddings = nat num, embedding_dim = nat d,
                                emb_weight = init (AdditionalEmb k)\<rparr>))
         (dnn_additional_embeddings_sizes hp)"
    "size_ok nu" "size_ok ni" "size_ok (user_dim hp)" "size_ok (item_dim hp)"
    "list_all (\<lambda>(k, num, d). size_ok num \<and> size_ok d) (dnn_additional_embeddings_sizes hp)"
  using assms
  by (auto simp: construct_def new_Embedding_def
      dest!: ModuleDict_Inr new_additional_Inr split: sum.splits if_splits)

lemma construct_layers:
  assumes "construct fw init nu ni hp = Inr m"
  shows "\<exists>out. deep_layers init (dnn_dropout hp) 0
                 (dnn_cont_features hp + total_emb_dim hp (additional_embs m))
                 (dnn_hidden_units hp) = Inr (deep m, out) \<and>
               head m = [Linear (nat (crossed_feat_dim hp + out)) 1 (init HeadWeight)
                           (init HeadBias 0), Sigmoid] \<and>
               size_ok (crossed_feat_dim hp + out)"
  using assms
  by (auto simp: construct_def new_Linear_def dest!: ModuleDict_Inr split: sum.splits if_splits)

lemma deep_layers_training: "deep_layers init p j prev hus = Inr (ls, out) \<Longrightarrow>
   map (set_training True) ls = ls"
  by (induction hus arbitrary: j prev ls)
     (auto simp: new_Linear_def new_Dropout_def split: sum.splits if_splits)

lemma deep_layers_out:
  "deep_layers init p j prev hus = Inr (ls, out) \<Longrightarrow> out = last (prev # hus) \<and> (hus \<noteq> [] \<longrightarrow> size_ok out)"
  by (induction hus arbitrary: j prev ls)
     (auto simp: new_Linear_def new_Dropout_def split: sum.splits if_splits)

lemma deep_layers_structure:
  assumes "deep_layers init p j prev hus = Inr (ls, out)"
  shows "length ls = 3 * length hus \<and>
         map layer_kind ls = concat (replicate (length hus) [''Linear'', ''Dropout'', ''ReLU'']) \<and>
         (\<forall>i < length hus.
            (\<exists>fin. ls ! (3 * i) = Linear fin (nat (hus ! i)) (init (DeepWeight (j + i)))
                                   (init (DeepBias (j + i)) 0)) \<and>
            ls ! (3 * i + 1) = Dropout p True \<and> ls ! (3 * i + 2) = ReLU)"
  using assms
proof (induction hus arbitrary: j prev ls)
  case Nil
  then show ?case by simp
next
  case (Cons hu hus)
  from Cons.prems obtain ls' where
    ls: "ls = Linear (nat prev) (nat hu) (init (DeepWeight j)) (init (DeepBias j) 0) #
              Dropout p True # ReLU # ls'"
    and rest: "deep_layers init p (Suc j) hu hus = Inr (ls', out)"
    by (auto simp: new_Linear_def new_Dropout_def split: sum.splits if_splits)
  note IH = Cons.IH [OF rest]
  have nth: "(\<exists>fin. ls ! (3 * i) = Linear fin (nat ((hu # hus) ! i)) (init (DeepWeight (j + i)))
                                   (init (DeepBias (j + i)) 0)) \<and>
            ls ! (3 * i + 1) = Dropout p True \<and> ls ! (3 * i + 2) = ReLU"
    if "i < length (hu # hus)" for i
  proof (cases i)
    case 0
    then show ?thesis using ls by simp
  next
    case (Suc i')
    then have "i' < length hus" using that by simp
    then show ?thesis using IH Suc ls by (simp add: numeral_3_eq_3)
  qed
  show ?case
    using IH ls nth by simp
qed

lemma construct_m0: "construct real_torch init0 10 5 hp0 = Inr m0"
  by (simp add: construct_def hp0_def m0_def new_Embedding_def new_Linear_def new_Dropout_def
      size_ok_def total_emb_dim_def real_torch_def)

lemma construct_m1: "construct real_torch init0 10 5 hp1 = Inr m1"
  by (simp add: construct_def hp1_def m1_def hp0_def m0_def new_Embedding_def new_Linear_def new_Dropout_def
      size_ok_def total_emb_dim_def real_torch_def)

lemma construct_default: "construct real_torch init0 10 5 default_hparams = Inr m_default"
  by (simp add: construct_def default_hparams_def m_default_def new_Embedding_def new_Linear_def
      new_Dropout_def size_ok_def total_emb_dim_def real_torch_def)

text \<open>A constructed model is in training mode.\<close>

lemma construct_train_mode:
  assumes "construct fw init num_users num_items hp = Inr m"
  shows "train_mode m = m"
proof -
  obtain out where dl: "deep_layers init (dnn_dropout hp) 0
        (dnn_cont_features hp + total_emb_dim hp (additional_embs m))
        (dnn_hidden_units hp) = Inr (deep m, out)"
    and hd: "head m = [Linear (nat (crossed_feat_dim hp + out)) 1 (init HeadWeight)
                           (init HeadBias 0), Sigmoid]"
    using construct_layers [OF assms] by blast
  have "map (set_training True) (head m) = head m"
    by (simp add: hd)
  then show ?thesis
    by (simp add: train_mode_def deep_layers_training [OF dl])
qed

text \<open>
  Claim C4, as amended. In the deep branch built at construction, a dropout layer with
  probability \<open>dnn_dropout\<close> follows every linear layer, the last one included: for
  \<open>dnn_hidden_units\<close> of length \<open>k\<close> the stack is \<open>k\<close> times (linear, dropout, ReLU) in
  this order, so it has exactly \<open>k\<close> linear and \<open>k\<close> dropout layers; the \<open>i\<close>-th linear
  layer has \<open>dnn_hidden_units[i]\<close> outputs. Only the linear layer of the fusion head is
  followed by no dropout.
\<close>

theorem deep_branch_layers:
  assumes "construct fw init num_users num_items hp = Inr m"
  shows "length (deep m) = 3 * length (dnn_hidden_units hp) \<and>
         map layer_kind (deep m) =
           concat (replicate (length (dnn_hidden_units hp)) [''Linear'', ''Dropout'', ''ReLU'']) \<and>
         (\<forall>i < length (dnn_hidden_units hp).
            (\<exists>fin. deep m ! (3 * i) =
                     Linear fin (nat (dnn_hidden_units hp ! i)) (init (DeepWeight i))
                       (init (DeepBias i) 0)) \<and>
            deep m ! (3 * i + 1) = Dropout (dnn_dropout hp) True \<and>
            deep m ! (3 * i + 2) = ReLU) \<and>
         map layer_kind (head m) = [''Linear'', ''Sigmoid'']"
proof -
  obtain out where dl: "deep_layers init (dnn_dropout hp) 0
        (dnn_cont_features hp + total_emb_dim hp (additional_embs m))
        (dnn_hidden_units hp) = Inr (deep m, out)"
    and hd: "head m = [Linear (nat (crossed_feat_dim hp + out)) 1 (init HeadWeight)
                           (init HeadBias 0), Sigmoid]"
    using construct_layers [OF assms] by blast
  show ?thesis
    using deep_layers_structure [OF dl] hd by simp
qed

text \<open>On \<open>m0\<close>, with one hidden width.\<close>

theorem deep_branch_layers_example:
  "map layer_kind (deep m0) = [''Linear'', ''Dropout'', ''ReLU''] \<and>
   deep m0 ! 1 = Dropout (1 / 2) True \<and> map layer_kind (head m0) = [''Linear'', ''Sigmoid'']"
  using deep_branch_layers [OF construct_m0] by (simp add: hp0_def)

text \<open>Claim C4 as stated fails on the default hyperparameters: of the two hidden
  linear layers the last one, too, is followed by a dropout layer.\<close>

theorem dropout_after_last_hidden_layer:
  "construct real_torch init0 10 5 default_hparams = Inr m_default \<and>
   map layer_kind (deep m_default) =
     [''Linear'', ''Dropout'', ''ReLU'', ''Linear'', ''Dropout'', ''ReLU'']"
  by (simp add: construct_default) (simp add: m_default_def)

subsection \<open>State and randomness of a call\<close>

text \<open>The equations that evaluate a call on concrete data.\<close>

lemmas eval_defs = forward_def m0_def hp0_def eval_mode_def all_embed_def embedding_def cat_def
      cross_product_idx_def to_long_def remainder_def one_hot_def to_float_def linear_def
      dropout_def pointwise_def real_torch_def init0_def upt_conv_Cons one_hot_row

text \<open>
  Claim C10. A call of \<open>forward\<close>, whether it returns or raises, leaves the module as
  it was: the embedding tables, the layers of the deep branch and of the head with their
  weights and biases, the hyperparameters. Of the state only the generator can change.
\<close>

theorem forward_keeps_model: "model (snd (forward fw s xs ae cf)) = model s"
  by (simp add: forward_def Let_def split: sum.splits prod.splits)

text \<open>On the model \<open>m0\<close> in training mode, a call on one interaction returns with
  the model unchanged; its dropout layer has drawn two entries from the generator.\<close>

theorem forward_keeps_model_example:
  "snd (forward real_torch \<lparr>model = m0, generator = 0\<rparr> [(3, 4)] [''genre'' \<mapsto> [7]] None) =
     \<lparr>model = m0, generator = 2\<rparr>"
proof -
  let ?s = "\<lparr>model = m0, generator = 0 :: nat\<rparr>"
  have "model (snd (forward real_torch ?s [(3, 4)] [''genre'' \<mapsto> [7]] None)) = m0"
    using forward_keeps_model [of real_torch ?s "[(3, 4)]" "[''genre'' \<mapsto> [7]]" None] by simp
  moreover have "generator (snd (forward real_torch ?s [(3, 4)] [''genre'' \<mapsto> [7]] None)) = 2"
    by (simp add: eval_defs)
  ultimately show ?thesis
    by (cases "snd (forward real_torch ?s [(3, 4)] [''genre'' \<mapsto> [7]] None)") simp
qed

text \<open>In evaluation mode no layer reads the generator: a layer's result is the same
  from every generator state, and the state is handed on as it was.\<close>

lemma apply_layer_eval:
  "apply_layer fw (set_training False l) x g =
     (fst (apply_layer fw (set_training False l) x g0), g)"
  by (cases l) (simp_all add: dropout_def)

lemma sequential_eval:
  "sequential fw (map (set_training False) ls) x g =
     (fst (sequential fw (map (set_training False) ls) x g0), g)"
proof (induction ls arbitrary: x)
  case Nil
  then show ?case by simp
next
  case (Cons l ls)
  obtain r where r: "apply_layer fw (set_training False l) x g0 = (r, g0)"
    using apply_layer_eval [of fw l x g0 g0] by (metis prod.collapse)
  then have rg: "apply_layer fw (set_training False l) x g = (r, g)"
    using apply_layer_eval [of fw l x g g0] by simp
  show ?case
  proof (cases r)
    case (Inl e)
    then show ?thesis using r rg by simp
  next
    case (Inr y)
    then show ?thesis using r rg Cons.IH [of y] by simp
  qed
qed

lemma forward_eval_generator:
  assumes "model s = eval_mode m"
  shows "fst (forward fw (s\<lparr>generator := g\<rparr>) xs ae cf) = fst (forward fw s xs ae cf) \<and>
         snd (forward fw s xs ae cf) = s"
proof -
  define D where "D x = fst (sequential fw (deep (model s)) x (generator s))" for x
  define H where "H x = fst (sequential fw (head (model s)) x (generator s))" for x
  have d: "sequential fw (deep (model s)) x g' = (D x, g')" for x g'
    using sequential_eval [of fw "deep m" x g' "generator s"] assms
    by (simp add: eval_mode_def D_def)
  have h: "sequential fw (head (model s)) x g' = (H x, g')" for x g'
    using sequential_eval [of fw "head m" x g' "generator s"] assms
    by (simp add: eval_mode_def H_def)
  show ?thesis
    by (simp add: forward_def Let_def d h split: sum.splits)
qed

text \<open>
  Claim C3. At inference time, that is after \<open>model.eval()\<close>, \<open>forward\<close> is
  deterministic: for fixed parameters and a fixed batch, a second call (running in the
  state the first call left) returns what the first call returned, and the result does
  not depend on the state of the random generator.
\<close>

theorem forward_deterministic_in_eval_mode:
  assumes "model s = eval_mode m"
  shows "fst (forward fw (snd (forward fw s xs ae cf)) xs ae cf) = fst (forward fw s xs ae cf) \<and>
         (\<forall>g. fst (forward fw (s\<lparr>generator := g\<rparr>) xs ae cf) = fst (forward fw s xs ae cf))"
  using forward_eval_generator [OF assms] by simp

text \<open>On \<open>m0\<close> in evaluation mode both calls return the same score.\<close>

theorem forward_deterministic_example:
  "fst (forward real_torch
         (snd (forward real_torch \<lparr>model = eval_mode m0, generator = 0\<rparr>
                 [(3, 4)] [''genre'' \<mapsto> [7]] None))
         [(3, 4)] [''genre'' \<mapsto> [7]] None) =
     Inr \<lparr>ncols = 1, rows = [[1 / (1 + exp (- 18))]]\<rparr> \<and>
   fst (forward real_torch \<lparr>model = eval_mode m0, generator = 0\<rparr>
         [(3, 4)] [''genre'' \<mapsto> [7]] None) =
     Inr \<lparr>ncols = 1, rows = [[1 / (1 + exp (- 18))]]\<rparr>"
proof -
  let ?s = "\<lparr>model = eval_mode m0, generator = 0 :: nat\<rparr>"
  have "fst (forward real_torch ?s [(3, 4)] [''genre'' \<mapsto> [7]] None) =
          Inr \<lparr>ncols = 1, rows = [[1 / (1 + exp (- 18))]]\<rparr>"
    by (simp add: eval_defs)
  then show ?thesis
    using forward_deterministic_in_eval_mode
      [of ?s m0 real_torch "[(3, 4)]" "[''genre'' \<mapsto> [7]]" None]
    by simp
qed

text \<open>In training mode the deep branch of \<open>m0\<close> does draw: from two generator
  states it returns two different tensors.\<close>

lemma deep_branch_draws_in_training:
  "sequential real_torch (deep m0) \<lparr>ncols = 7, rows = [[1, 1, 1, 1, 1, 1, 1]]\<rparr> 0 =
     (Inr \<lparr>ncols = 2, rows = [[0, 16]]\<rparr>, 2) \<and>
   sequential real_torch (deep m0) \<lparr>ncols = 7, rows = [[1, 1, 1, 1, 1, 1, 1]]\<rparr> 1 =
     (Inr \<lparr>ncols = 2, rows = [[16, 0]]\<rparr>, 3)"
  by (simp add: eval_defs)

subsection \<open>Errors of a call\<close>

lemma additional_lookup_Inr_keys:
  "additional_lookup embs ae = Inr ts \<Longrightarrow> (k, emb) \<in> set embs \<Longrightarrow> ae k \<noteq> None"
  by (induction embs arbitrary: ts) (auto split: option.splits sum.splits)

lemma additional_lookup_KeyError:
  assumes "k \<in> fst ` set embs" "ae k = None"
    and "list_all (\<lambda>(k', emb). case ae k' of None \<Rightarrow> True | Some idx \<Rightarrow>
           list_all (\<lambda>i. 0 \<le> sint i \<and> sint i < int (num_embeddings emb)) idx) embs"
  shows "\<exists>k'. k' \<in> fst ` set embs \<and> ae k' = None \<and> additional_lookup embs ae = Inl (KeyError k')"
  using assms
proof (induction embs)
  case Nil
  then show ?case by simp
next
  case (Cons a embs)
  obtain k0 emb where a: "a = (k0, emb)" by (cases a)
  show ?case
  proof (cases "ae k0")
    case None
    then show ?thesis using a by auto
  next
    case (Some idx)
    then have ok: "embedding emb idx = Inr \<lparr>ncols = embedding_dim emb,
        rows = map (\<lambda>i. map (emb_weight emb (nat (sint i))) [0..<embedding_dim emb]) idx\<rparr>"
      using Cons.prems(3) a by (simp add: embedding_def)
    have "k \<in> fst ` set embs" using Cons.prems(1,2) a Some by auto
    then obtain k' where "k' \<in> fst ` set embs" "ae k' = None"
      "additional_lookup embs ae = Inl (KeyError k')"
      using Cons.IH Cons.prems(2,3) by auto
    then show ?thesis using a Some ok by auto
  qed
qed

lemma forward_all_embed_Inl:
  "all_embed (model s) (map fst xs) (map snd xs) ae = Inl e \<Longrightarrow>
   fst (forward fw s xs ae cf) = Inl e"
  by (simp add: forward_def Let_def)

lemma forward_Inr_all_embed:
  "fst (forward fw s xs ae cf) = Inr out \<Longrightarrow>
   \<exists>a. all_embed (model s) (map fst xs) (map snd xs) ae = Inr a"
  by (cases "all_embed (model s) (map fst xs) (map snd xs) ae")
     (simp_all add: forward_def Let_def)

lemma all_embed_Inr_keys:
  "all_embed m users items ae = Inr a \<Longrightarrow> (k, emb) \<in> set (additional_embs m) \<Longrightarrow> ae k \<noteq> None"
  by (auto simp: all_embed_def split: sum.splits dest: additional_lookup_Inr_keys)

lemma embedding_in_range:
  "list_all (\<lambda>i. 0 \<le> sint i \<and> sint i < int (num_embeddings emb)) idx \<Longrightarrow>
   embedding emb idx = Inr \<lparr>ncols = embedding_dim emb,
     rows = map (\<lambda>i. map (emb_weight emb (nat (sint i))) [0..<embedding_dim emb]) idx\<rparr>"
  by (simp add: embedding_def)

text \<open>A registered feature without an entry in the caller's mapping: the call fails,
  and with a key error when no index lookup fails before.\<close>

lemma forward_missing_key_general:
  assumes "(k, emb) \<in> set (additional_embs (model s))" "ae k = None"
  shows "(\<exists>e. fst (forward fw s xs ae cf) = Inl e) \<and>
         (list_all (\<lambda>(u, i). 0 \<le> sint u \<and> sint u < int (num_embeddings (users_emb (model s))) \<and>
                            0 \<le> sint i \<and> sint i < int (num_embeddings (items_emb (model s)))) xs \<and>
          list_all (\<lambda>(k', emb). case ae k' of None \<Rightarrow> True | Some idx \<Rightarrow>
             list_all (\<lambda>i. 0 \<le> sint i \<and> sint i < int (num_embeddings emb)) idx)
            (additional_embs (model s)) \<longrightarrow>
          (\<exists>k'. k' \<in> fst ` set (additional_embs (model s)) \<and> ae k' = None \<and>
                fst (forward fw s xs ae cf) = Inl (KeyError k')))"
proof (intro conjI impI)
  show "\<exists>e. fst (forward fw s xs ae cf) = Inl e"
  proof (cases "fst (forward fw s xs ae cf)")
    case (Inl e)
    then show ?thesis by blast
  next
    case (Inr out)
    then show ?thesis
      using forward_Inr_all_embed [OF Inr] all_embed_Inr_keys assms by blast
  qed
next
  assume v: "list_all (\<lambda>(u, i). 0 \<le> sint u \<and> sint u < int (num_embeddings (users_emb (model s))) \<and>
                            0 \<le> sint i \<and> sint i < int (num_embeddings (items_emb (model s)))) xs \<and>
          list_all (\<lambda>(k', emb). case ae k' of None \<Rightarrow> True | Some idx \<Rightarrow>
             list_all (\<lambda>i. 0 \<le> sint i \<and> sint i < int (num_embeddings emb)) idx)
            (additional_embs (model s))"
  have u: "list_all (\<lambda>i. 0 \<le> sint i \<and> sint i < int (num_embeddings (users_emb (model s)))) (map fst xs)"
    using v by (auto simp: list_all_iff)
  have i: "list_all (\<lambda>i. 0 \<le> sint i \<and> sint i < int (num_embeddings (items_emb (model s)))) (map snd xs)"
    using v by (auto simp: list_all_iff)
  have "k \<in> fst ` set (additional_embs (model s))" using assms(1) by force
  then obtain k' where k': "k' \<in> fst ` set (additional_embs (model s))" "ae k' = None"
    "additional_lookup (additional_embs (model s)) ae = Inl (KeyError k')"
    using additional_lookup_KeyError [of k "additional_embs (model s)" ae] assms(2) v by blast
  have "all_embed (model s) (map fst xs) (map snd xs) ae = Inl (KeyError k')"
    by (simp add: all_embed_def embedding_in_range [OF u] embedding_in_range [OF i] k'(3))
  then show "\<exists>k'. k' \<in> fst ` set (additional_embs (model s)) \<and> ae k' = None \<and>
                fst (forward fw s xs ae cf) = Inl (KeyError k')"
    using k' forward_all_embed_Inl by blast
qed

lemma sizes_in_range:
  assumes "list_all (\<lambda>(k', num, d). case ae k' of None \<Rightarrow> True | Some idx \<Rightarrow>
                      list_all (\<lambda>i. 0 \<le> sint i \<and> sint i < num) idx) sizes"
    and "list_all (\<lambda>(k, num, d). size_ok num \<and> size_ok d) sizes"
  shows "list_all (\<lambda>(k', emb). case ae k' of None \<Rightarrow> True | Some idx \<Rightarrow>
             list_all (\<lambda>i. 0 \<le> sint i \<and> sint i < int (num_embeddings emb)) idx)
           (map (\<lambda>(k, num, d). (k, \<lparr>num_embeddings = nat num, embedding_dim = nat d,
                                emb_weight = init (AdditionalEmb k)\<rparr>)) sizes)"
  using assms
  by (induction sizes) (auto simp: size_ok_def split: option.splits)

text \<open>
  Claim C7. Let the model be constructed with a feature \<open>k\<close> declared in
  \<open>dnn_additional_embeddings_sizes\<close>, and let \<open>forward\<close> be called with a mapping that
  has no entry for \<open>k\<close>. Then the call never returns a tensor: no default stands in for
  the missing feature. When the user and item indices are rows of their tables and the
  indices of the features that are supplied are in range (so that no index error is
  raised first), the exception is the key error of a declared feature that is missing.
\<close>

theorem forward_missing_key:
  assumes c: "construct fw init num_users num_items hp = Inr m"
    and s: "model s = m \<or> model s = eval_mode m"
    and k: "k \<in> fst ` set (dnn_additional_embeddings_sizes hp)" "ae k = None"
  shows "(\<exists>e. fst (forward fw s xs ae cf) = Inl e) \<and>
         (list_all (\<lambda>(u, i). 0 \<le> sint u \<and> sint u < num_users \<and>
                             0 \<le> sint i \<and> sint i < num_items) xs \<and>
          list_all (\<lambda>(k', num, d). case ae k' of None \<Rightarrow> True | Some idx \<Rightarrow>
                      list_all (\<lambda>i. 0 \<le> sint i \<and> sint i < num) idx)
            (dnn_additional_embeddings_sizes hp) \<longrightarrow>
          (\<exists>k'. k' \<in> fst ` set (dnn_additional_embeddings_sizes hp) \<and> ae k' = None \<and>
                fst (forward fw s xs ae cf) = Inl (KeyError k')))"
proof -
  note t = construct_tables [OF c]
  have M: "users_emb (model s) = users_emb m" "items_emb (model s) = items_emb m"
    "additional_embs (model s) = additional_embs m"
    using s by (auto simp: eval_mode_def)
  have keys: "fst ` set (additional_embs m) = fst ` set (dnn_additional_embeddings_sizes hp)"
    by (force simp: t(6))
  then obtain emb where emb: "(k, emb) \<in> set (additional_embs (model s))"
    using k(1) M(3) by force
  note g = forward_missing_key_general
    [where fw = fw and xs = xs and cf = cf and s = s and ae = ae and k = k and emb = emb,
     OF emb k(2)]
  have nu: "0 \<le> num_users" "0 \<le> num_items"
    using t(7,8) by (simp_all add: size_ok_def)
  have sz: "list_all (\<lambda>(k, num, d). size_ok num \<and> size_ok d) (dnn_additional_embeddings_sizes hp)"
    by (rule t(11))
  have r: "list_all (\<lambda>(k', emb). case ae k' of None \<Rightarrow> True | Some idx \<Rightarrow>
             list_all (\<lambda>i. 0 \<le> sint i \<and> sint i < int (num_embeddings emb)) idx)
            (additional_embs (model s))"
    if "list_all (\<lambda>(k', num, d). case ae k' of None \<Rightarrow> True | Some idx \<Rightarrow>
                      list_all (\<lambda>i. 0 \<le> sint i \<and> sint i < num) idx)
            (dnn_additional_embeddings_sizes hp)"
    using that sz unfolding M(3) t(6) by (rule sizes_in_range)
  show ?thesis
  proof (intro conjI impI)
    show "\<exists>e. fst (forward fw s xs ae cf) = Inl e" using g by blast
  next
    assume a: "list_all (\<lambda>(u, i). 0 \<le> sint u \<and> sint u < num_users \<and>
                             0 \<le> sint i \<and> sint i < num_items) xs \<and>
          list_all (\<lambda>(k', num, d). case ae k' of None \<Rightarrow> True | Some idx \<Rightarrow>
                      list_all (\<lambda>i. 0 \<le> sint i \<and> sint i < num) idx)
            (dnn_additional_embeddings_sizes hp)"
    have 1: "list_all (\<lambda>(u, i). 0 \<le> sint u \<and>
                 sint u < int (num_embeddings (users_emb (model s))) \<and>
                 0 \<le> sint i \<and> sint i < int (num_embeddings (items_emb (model s)))) xs"
      using a by (simp add: M t(4,5) nu)
    have 2: "list_all (\<lambda>(k', emb). case ae k' of None \<Rightarrow> True | Some idx \<Rightarrow>
             list_all (\<lambda>i. 0 \<le> sint i \<and> sint i < int (num_embeddings emb)) idx)
            (additional_embs (model s))"
      using r a by blast
    from g 1 2 obtain k' where "k' \<in> fst ` set (additional_embs (model s))" "ae k' = None"
      "fst (forward fw s xs ae cf) = Inl (KeyError k')" by blast
    then show "\<exists>k'. k' \<in> fst ` set (dnn_additional_embeddings_sizes hp) \<and> ae k' = None \<and>
                fst (forward fw s xs ae cf) = Inl (KeyError k')"
      using keys M(3) by auto
  qed
qed

text \<open>The scenario of the specification: \<open>{"genre": (20, 4)}\<close> is declared, and the
  call supplies no additional feature.\<close>

theorem forward_missing_key_example:
  "fst (forward real_torch \<lparr>model = m0, generator = 0\<rparr> [(3, 4)] Map.empty None) =
     Inl (KeyError ''genre'')"
  using forward_missing_key [OF construct_m0, of "\<lparr>model = m0, generator = 0\<rparr>" "''genre''"
      Map.empty "[(3, 4)]" None]
  by (simp add: hp0_def)

text \<open>
  Claim C8. When \<open>dnn_cont_features > 0\<close>, a call with \<open>continuous_features = None\<close>
  fails, and with a type error as soon as lines 74 to 82 run through. When
  \<open>dnn_cont_features > 0\<close> does not hold, the argument is not required: a call without
  it does what a call with any value of it does.
\<close>

theorem forward_requires_continuous_features:
  "(0 < dnn_cont_features (hparams (model s)) \<longrightarrow>
      (\<exists>e. fst (forward fw s xs ae None) = Inl e) \<and>
      (\<forall>a idx c. all_embed (model s) (map fst xs) (map snd xs) ae = Inr a \<and>
         cross_product_idx (n_items (model s)) (crossed_feat_dim (hparams (model s)))
           (map fst xs) (map snd xs) = Inr idx \<and>
         one_hot idx (crossed_feat_dim (hparams (model s))) = Inr c \<longrightarrow>
         fst (forward fw s xs ae None) = Inl TypeError)) \<and>
   (\<not> 0 < dnn_cont_features (hparams (model s)) \<longrightarrow>
      forward fw s xs ae None = forward fw s xs ae cf)"
  by (auto simp: forward_def Let_def cat_def split: sum.splits)

text \<open>On \<open>m1\<close>, which has two continuous features: without the matrix the call raises,
  with a matrix of shape \<open>(1, 2)\<close> it returns a score.\<close>

theorem forward_requires_continuous_features_example:
  "fst (forward real_torch \<lparr>model = m1, generator = 0\<rparr> [(3, 4)] [''genre'' \<mapsto> [7]] None) =
     Inl TypeError \<and>
   fst (forward real_torch \<lparr>model = m1, generator = 0\<rparr> [(3, 4)] [''genre'' \<mapsto> [7]]
          (Some \<lparr>ncols = 2, rows = [[1, 1]]\<rparr>)) =
     Inr \<lparr>ncols = 1, rows = [[1 / (1 + exp (- 22))]]\<rparr>"
  using forward_requires_continuous_features
    [of "\<lparr>model = m1, generator = 0\<rparr>" real_torch "[(3, 4)]" "[''genre'' \<mapsto> [7]]" None]
  by (simp add: m1_def hp1_def eval_defs)

subsection \<open>Shapes, and calls that return\<close>

lemma noise_row_length: "noise_row d m r g = (r', g') \<Longrightarrow> length r' = length r"
  by (induction r arbitrary: g r' g') (auto split: prod.splits)

lemma noise_rows_length: "noise_rows d m rs g = (rs', g') \<Longrightarrow> length rs' = length rs"
  by (induction rs arbitrary: g rs' g') (auto split: prod.splits)

lemma dropout_shape:
  assumes "0 \<le> p" "p \<le> 1"
  shows "\<exists>y g'. dropout fw p t x g = (Inr y, g') \<and> ncols y = ncols x \<and>
                length (rows y) = length (rows x)"
proof -
  obtain rs g' where n: "noise_rows (f_noise fw p) (f_mul fw) (rows x) g = (rs, g')"
    by (cases "noise_rows (f_noise fw p) (f_mul fw) (rows x) g")
  show ?thesis
    using assms n noise_rows_length [OF n]
    by (auto simp: dropout_def pointwise_def)
qed

lemma linear_shape:
  "ncols x = fin \<Longrightarrow>
   \<exists>y. linear fw fin fout w b x = Inr y \<and> ncols y = fout \<and> length (rows y) = length (rows x) \<and>
       list_all (\<lambda>r. length r = fout) (rows y)"
  by (simp add: linear_def list_all_iff)

text \<open>The layers of the loop of lines 49 to 53 accept an input of \<open>prev_output\<close> columns,
  in either mode, and return the last width.\<close>

lemma deep_layers_sequential:
  assumes "deep_layers init p j prev hus = Inr (ls, out)" "ncols x = nat prev"
  shows "\<exists>y g'. sequential fw (map (set_training t) ls) x g = (Inr y, g') \<and>
                ncols y = nat out \<and> length (rows y) = length (rows x)"
  using assms
proof (induction hus arbitrary: j prev ls x g)
  case Nil
  then show ?case by simp
next
  case (Cons hu hus)
  from Cons.prems(1) obtain ls' where
    ls: "ls = Linear (nat prev) (nat hu) (init (DeepWeight j)) (init (DeepBias j) 0) #
              Dropout p True # ReLU # ls'"
    and p: "0 \<le> p" "p \<le> 1"
    and rest: "deep_layers init p (Suc j) hu hus = Inr (ls', out)"
    by (auto simp: new_Linear_def new_Dropout_def split: sum.splits if_splits)
  obtain y1 where y1: "linear fw (nat prev) (nat hu) (init (DeepWeight j)) (init (DeepBias j) 0) x = Inr y1"
    "ncols y1 = nat hu" "length (rows y1) = length (rows x)"
    using linear_shape [OF Cons.prems(2)] by blast
  obtain y2 g2 where y2: "dropout fw p t y1 g = (Inr y2, g2)" "ncols y2 = ncols y1"
    "length (rows y2) = length (rows y1)"
    using dropout_shape [OF p, of fw t y1 g] by blast
  let ?y3 = "pointwise (f_relu fw) y2"
  have y3: "ncols ?y3 = nat hu" "length (rows ?y3) = length (rows x)"
    using y1 y2 by (simp_all add: pointwise_def)
  obtain y g' where "sequential fw (map (set_training t) ls') ?y3 g2 = (Inr y, g')"
    "ncols y = nat out" "length (rows y) = length (rows ?y3)"
    using Cons.IH [OF rest y3(1)] by blast
  then show ?case
    using ls y1 y2 y3 by simp
qed

lemma tensors_of_Some: "tensors_of (map Some ts) = Inr ts"
  by (induction ts) simp_all

lemma cat_same_rows:
  assumes "list_all (\<lambda>t. length (rows t) = n) (x # xs)"
  shows "\<exists>y. cat (map Some (x # xs)) = Inr y \<and> ncols y = sum_list (map ncols (x # xs)) \<and>
             length (rows y) = n"
  using assms by (simp add: cat_def tensors_of_Some)

lemma additional_lookup_valid:
  assumes "list_all (\<lambda>(k, emb). case ae k of None \<Rightarrow> False | Some idx \<Rightarrow>
              length idx = n \<and>
              list_all (\<lambda>i. 0 \<le> sint i \<and> sint i < int (num_embeddings emb)) idx) embs"
  shows "\<exists>ts. additional_lookup embs ae = Inr ts \<and> list_all (\<lambda>t. length (rows t) = n) ts \<and>
              map ncols ts = map (embedding_dim \<circ> snd) embs"
  using assms
proof (induction embs)
  case Nil
  then show ?case by simp
next
  case (Cons a embs)
  obtain k emb where a: "a = (k, emb)" by (cases a)
  from Cons.prems a obtain idx where idx: "ae k = Some idx" "length idx = n"
    "list_all (\<lambda>i. 0 \<le> sint i \<and> sint i < int (num_embeddings emb)) idx"
    by (auto split: option.splits)
  from Cons obtain ts where ts: "additional_lookup embs ae = Inr ts"
    "list_all (\<lambda>t. length (rows t) = n) ts" "map ncols ts = map (embedding_dim \<circ> snd) embs"
    by auto
  show ?case
    using a idx ts by (simp add: embedding_in_range)
qed

lemma total_emb_dim_sum:
  "foldl (\<lambda>acc (k, emb). acc + int (embedding_dim emb)) a embs =
   a + int (sum_list (map (embedding_dim \<circ> snd) embs))"
  by (induction embs arbitrary: a) (auto simp: case_prod_unfold)

lemma all_embed_valid:
  assumes "valid_batch m xs ae"
  shows "\<exists>a. all_embed m (map fst xs) (map snd xs) ae = Inr a \<and> length (rows a) = length xs \<and>
             ncols a = embedding_dim (users_emb m) + embedding_dim (items_emb m) +
                       sum_list (map (embedding_dim \<circ> snd) (additional_embs m))"
proof -
  have u: "list_all (\<lambda>i. 0 \<le> sint i \<and> sint i < int (num_embeddings (users_emb m))) (map fst xs)"
    using assms by (auto simp: valid_batch_def list_all_iff)
  have i: "list_all (\<lambda>i. 0 \<le> sint i \<and> sint i < int (num_embeddings (items_emb m))) (map snd xs)"
    using assms by (auto simp: valid_batch_def list_all_iff)
  obtain ts where ts: "additional_lookup (additional_embs m) ae = Inr ts"
    "list_all (\<lambda>t. length (rows t) = length xs) ts"
    "map ncols ts = map (embedding_dim \<circ> snd) (additional_embs m)"
    using additional_lookup_valid [where ae = ae and n = "length xs" and embs = "additional_embs m"] assms
    by (auto simp: valid_batch_def)
  let ?ue = "\<lparr>ncols = embedding_dim (users_emb m),
     rows = map (\<lambda>i. map (emb_weight (users_emb m) (nat (sint i))) [0..<embedding_dim (users_emb m)]) (map fst xs)\<rparr>"
  let ?ie = "\<lparr>ncols = embedding_dim (items_emb m),
     rows = map (\<lambda>i. map (emb_weight (items_emb m) (nat (sint i))) [0..<embedding_dim (items_emb m)]) (map snd xs)\<rparr>"
  have "list_all (\<lambda>t. length (rows t) = length xs) (?ue # ?ie # ts)"
    using ts(2) by simp
  from cat_same_rows [OF this] obtain y where
    "cat (map Some (?ue # ?ie # ts)) = Inr y" "ncols y = sum_list (map ncols (?ue # ?ie # ts))"
    "length (rows y) = length xs" by blast
  then show ?thesis
    using ts(1,3) by (simp add: all_embed_def embedding_in_range [OF u] embedding_in_range [OF i])
qed

lemma head_shape:
  assumes "ncols x = fin"
  shows "\<exists>out. sequential fw [Linear fin 1 w b, Sigmoid] x g = (Inr out, g) \<and> ncols out = 1 \<and>
           length (rows out) = length (rows x) \<and> list_all (\<lambda>r. length r = 1) (rows out)"
  using assms by (simp add: linear_def pointwise_def list_all_iff)

text \<open>A constructed model with a positive number of buckets and no negative number of
  continuous features returns a tensor of shape \<open>(batch, 1)\<close> on every valid batch.\<close>

lemma forward_succeeds:
  assumes c: "construct fw init nu ni hp = Inr m"
    and s: "model s = m \<or> model s = eval_mode m"
    and cfd: "0 < crossed_feat_dim hp"
    and cont: "0 \<le> dnn_cont_features hp"
    and vb: "valid_batch m xs ae"
    and vc: "valid_continuous hp xs cf"
  shows "\<exists>out. fst (forward fw s xs ae cf) = Inr out \<and> ncols out = 1 \<and>
           length (rows out) = length xs \<and> list_all (\<lambda>r. length r = 1) (rows out)"
proof -
  note t = construct_tables [OF c]
  obtain out where dl: "deep_layers init (dnn_dropout hp) 0
        (dnn_cont_features hp + total_emb_dim hp (additional_embs m))
        (dnn_hidden_units hp) = Inr (deep m, out)"
    and hd: "head m = [Linear (nat (crossed_feat_dim hp + out)) 1 (init HeadWeight)
                           (init HeadBias 0), Sigmoid]"
    and so: "size_ok (crossed_feat_dim hp + out)"
    using construct_layers [OF c] by blast
  let ?M = "model s"
  let ?total = "total_emb_dim hp (additional_embs m)"
  obtain tr where M: "hparams ?M = hp" "n_items ?M = ni" "users_emb ?M = users_emb m"
    "items_emb ?M = items_emb m" "additional_embs ?M = additional_embs m"
    "deep ?M = map (set_training tr) (deep m)" "head ?M = head m"
  proof (cases "model s = m")
    case True
    then show ?thesis
      using that [of True] t(1,3) deep_layers_training [OF dl] by simp
  next
    case False
    then have "model s = eval_mode m" using s by simp
    then show ?thesis
      using that [of False] t(1,3) hd by (simp add: eval_mode_def)
  qed
  have total: "?total = int (embedding_dim (users_emb m) + embedding_dim (items_emb m) +
                 sum_list (map (embedding_dim \<circ> snd) (additional_embs m)))"
    using t(9,10) by (simp add: total_emb_dim_def total_emb_dim_sum t(4,5) size_ok_def)
  have vbM: "valid_batch ?M xs ae"
    using vb by (simp add: valid_batch_def M)
  obtain a where a: "all_embed ?M (map fst xs) (map snd xs) ae = Inr a"
    "length (rows a) = length xs" "int (ncols a) = ?total"
    using all_embed_valid [OF vbM] total by (auto simp: M)
  have out0: "0 \<le> out"
    using deep_layers_out [OF dl] cont total
    by (cases "dnn_hidden_units hp = []") (auto simp: size_ok_def)
  have fits: "crossed_feat_dim hp < 2 ^ 63"
    using so out0 by (simp add: size_ok_def)
  obtain idx where idx: "cross_product_idx ni (crossed_feat_dim hp) (map fst xs) (map snd xs) = Inr idx"
    "length idx = length xs" "list_all (\<lambda>x. 0 \<le> sint x \<and> sint x < crossed_feat_dim hp) idx"
    using cross_product_idx_total [OF cfd fits t(8)] by blast
  obtain cp where cp: "one_hot idx (crossed_feat_dim hp) = Inr cp"
    "ncols cp = nat (crossed_feat_dim hp)" "length (rows cp) = length xs"
    using one_hot_in_range [OF cfd idx(3)] idx(2) by auto
  obtain di where di: "(if dnn_cont_features hp > 0 then cat [cf, Some a] else Inr a) = Inr di"
    "length (rows di) = length xs" "ncols di = nat (dnn_cont_features hp + ?total)"
  proof (cases "dnn_cont_features hp > 0")
    case True
    then obtain cc where cc: "cf = Some cc" "length (rows cc) = length xs"
      "int (ncols cc) = dnn_cont_features hp"
      using vc by (auto simp: valid_continuous_def split: option.splits)
    have "list_all (\<lambda>t. length (rows t) = length xs) [cc, a]"
      using cc a by simp
    from cat_same_rows [OF this] obtain y where "cat [Some cc, Some a] = Inr y"
      "ncols y = ncols cc + ncols a" "length (rows y) = length xs" by auto
    then show ?thesis
      using that [of y] True cc a(3) by simp
  next
    case False
    then have "dnn_cont_features hp = 0" using cont by simp
    then show ?thesis using that [of a] a by simp
  qed
  obtain y g' where y: "sequential fw (deep ?M) di (generator s) = (Inr y, g')"
    "ncols y = nat out" "length (rows y) = length xs"
    using deep_layers_sequential [OF dl di(3), of fw tr "generator s"] di(2) M(6) by auto
  have "list_all (\<lambda>t. length (rows t) = length xs) [to_float fw cp, y]"
    using cp y by (simp add: to_float_def)
  from cat_same_rows [OF this] obtain wd where wd: "cat [Some (to_float fw cp), Some y] = Inr wd"
    "ncols wd = nat (crossed_feat_dim hp) + nat out" "length (rows wd) = length xs"
    using cp y by (auto simp: to_float_def)
  have "ncols wd = nat (crossed_feat_dim hp + out)"
    using wd(2) cfd out0 by (simp add: nat_add_distrib)
  from head_shape [OF this, of fw "init HeadWeight" "init HeadBias 0" g'] obtain res where
    res: "sequential fw (head ?M) wd g' = (Inr res, g')" "ncols res = 1"
    "length (rows res) = length xs" "list_all (\<lambda>r. length r = 1) (rows res)"
    using hd M(7) wd(3) by auto
  have "fst (forward fw s xs ae cf) = Inr res"
    using a(1) idx(1) cp(1) di(1) y(1) wd(1) res(1)
    by (simp add: forward_def Let_def M)
  then show ?thesis using res by blast
qed

text \<open>The interaction (user \<open>2^32\<close>, item 0), at which line 81 wraps, is a
  valid batch of a model with \<open>2^32 + 1\<close> users and \<open>2^31\<close> items: construction and the
  call both return.\<close>

lemma forward_reaches_wrap:
  "\<exists>m out. construct real_torch init0 (2 ^ 32 + 1) (2 ^ 31) hp_wide = Inr m \<and>
           fst (forward real_torch \<lparr>model = m, generator = 0\<rparr> [(2 ^ 32, 0)] Map.empty None) =
             Inr out"
proof -
  obtain m where m: "construct real_torch init0 (2 ^ 32 + 1) (2 ^ 31) hp_wide = Inr m"
    by (simp add: construct_def hp_wide_def new_Embedding_def new_Linear_def size_ok_def
        total_emb_dim_def)
  have vb: "valid_batch m [(2 ^ 32, 0)] Map.empty"
    using construct_tables(4-6) [OF m]
    by (simp add: valid_batch_def hp_wide_def)
  have "valid_continuous hp_wide [(2 ^ 32, 0)] (None :: real tensor option)"
    by (simp add: valid_continuous_def hp_wide_def)
  from forward_succeeds [OF m _ _ _ vb this, of "\<lparr>model = m, generator = 0\<rparr>"]
  show ?thesis using m by (auto simp: hp_wide_def)
qed






text \<open>
  Claim C9. Let the model be constructed with \<open>dnn_cont_features = 0\<close> (and a positive
  number of buckets). A call without continuous features returns on every valid batch;
  and a continuous-feature tensor that is supplied anyway, of whatever shape, is
  ignored: the call returns or raises, and leaves the state, exactly as the call
  without it.
\<close>

theorem continuous_features_ignored:
  assumes c: "construct fw init num_users num_items hp = Inr m"
    and s: "model s = m \<or> model s = eval_mode m"
    and cont: "dnn_cont_features hp = 0"
    and cfd: "0 < crossed_feat_dim hp"
    and vb: "valid_batch m xs ae"
  shows "(\<exists>out. fst (forward fw s xs ae None) = Inr out) \<and>
         (\<forall>c. forward fw s xs ae (Some c) = forward fw s xs ae None)"
proof -
  have h: "hparams (model s) = hp"
    using construct_tables(1) [OF c] s by (auto simp: eval_mode_def)
  have "valid_continuous hp xs None" using cont by (simp add: valid_continuous_def)
  from forward_succeeds [OF c s cfd _ vb this]
  have ok: "\<exists>out. fst (forward fw s xs ae None) = Inr out" using cont by auto
  have z: "dnn_cont_features (hparams (model s)) = 0"
    by (simp only: h cont)
  have "forward fw s xs ae (Some c) = forward fw s xs ae None" for c
    by (simp add: forward_def Let_def z split: sum.splits)
  with ok show ?thesis by blast
qed

text \<open>On \<open>m0\<close>: a call returns a score, and a \<open>(2, 3)\<close> matrix passed along changes
  nothing.\<close>

theorem continuous_features_ignored_example:
  "fst (forward real_torch \<lparr>model = m0, generator = 0\<rparr> [(3, 4)] [''genre'' \<mapsto> [7]] None) =
     Inr \<lparr>ncols = 1, rows = [[1 / (1 + exp (- 18))]]\<rparr> \<and>
   forward real_torch \<lparr>model = m0, generator = 0\<rparr> [(3, 4)] [''genre'' \<mapsto> [7]]
     (Some \<lparr>ncols = 3, rows = [[1, 2, 3], [4, 5, 6]]\<rparr>) =
   forward real_torch \<lparr>model = m0, generator = 0\<rparr> [(3, 4)] [''genre'' \<mapsto> [7]] None"
proof -
  have "valid_batch m0 [(3, 4)] [''genre'' \<mapsto> [7]]"
    by (simp add: valid_batch_def m0_def)
  from continuous_features_ignored
    [OF construct_m0 _ _ _ this, where s = "\<lparr>model = m0, generator = 0\<rparr>"]
  have "\<forall>c. forward real_torch \<lparr>model = m0, generator = 0\<rparr> [(3, 4)] [''genre'' \<mapsto> [7]] (Some c) =
            forward real_torch \<lparr>model = m0, generator = 0\<rparr> [(3, 4)] [''genre'' \<mapsto> [7]] None"
    by (simp add: hp0_def)
  moreover have "fst (forward real_torch \<lparr>model = m0, generator = 0\<rparr> [(3, 4)] [''genre'' \<mapsto> [7]] None) =
     Inr \<lparr>ncols = 1, rows = [[1 / (1 + exp (- 18))]]\<rparr>"
    by (simp add: eval_defs)
  ultimately show ?thesis by blast
qed

text \<open>The shape of whatever a call returns: one row per interaction, one column, every
  entry a value of the framework's sigmoid.\<close>

lemma cat_Inr_rows: "cat [Some x, Some y] = Inr z \<Longrightarrow> length (rows z) = length (rows x)"
  by (auto simp: cat_def split: if_splits)

lemma one_hot_Inr_rows: "one_hot idx n = Inr c \<Longrightarrow> length (rows c) = length idx"
  by (auto simp: one_hot_def Let_def split: if_splits)

lemma cross_product_idx_Inr_length:
  "cross_product_idx n c (map fst xs) (map snd xs) = Inr idx \<Longrightarrow> length idx = length xs"
  by (auto simp: cross_product_idx_def remainder_def split: sum.splits if_splits)

lemma head_Inr:
  assumes "sequential fw [Linear fin 1 w b, Sigmoid] x g = (Inr out, g')"
  shows "ncols out = 1 \<and> length (rows out) = length (rows x) \<and>
         list_all (\<lambda>r. \<exists>v. r = [f_sigmoid fw v]) (rows out)"
  using assms
  by (auto simp: linear_def pointwise_def list_all_iff split: if_splits)

lemma forward_output_shape:
  assumes c: "construct fw init num_users num_items hp = Inr m"
    and s: "model s = m \<or> model s = eval_mode m"
    and r: "fst (forward fw s xs ae cf) = Inr out"
  shows "ncols out = 1 \<and> length (rows out) = length xs \<and>
         list_all (\<lambda>r. \<exists>v. r = [f_sigmoid fw v]) (rows out)"
proof -
  obtain n where hd: "head m = [Linear n 1 (init HeadWeight) (init HeadBias 0), Sigmoid]"
    using construct_layers [OF c] by blast
  have hM: "head (model s) = head m"
    using s hd by (auto simp: eval_mode_def)
  from r obtain idx cp wd y g' g'' where
    idx: "cross_product_idx (n_items (model s)) (crossed_feat_dim (hparams (model s)))
            (map fst xs) (map snd xs) = Inr idx"
    and cp: "one_hot idx (crossed_feat_dim (hparams (model s))) = Inr cp"
    and wd: "cat [Some (to_float fw cp), Some y] = Inr wd"
    and res: "sequential fw (head (model s)) wd g' = (Inr out, g'')"
    by (auto simp: forward_def Let_def split: sum.splits prod.splits)
  have "length (rows wd) = length xs"
    using cat_Inr_rows [OF wd] one_hot_Inr_rows [OF cp] cross_product_idx_Inr_length [OF idx]
    by (simp add: to_float_def)
  then show ?thesis
    using head_Inr [of fw n "init HeadWeight" "init HeadBias 0" wd g' out g''] res hM hd by simp
qed

subsection \<open>The range of the score\<close>

text \<open>In exact arithmetic the sigmoid lies strictly between 0 and 1, and so does every
  entry that a call returns.\<close>

lemma exact_sigmoid_unit_interval: "0 < f_sigmoid real_torch v \<and> f_sigmoid real_torch v < 1"
  by (simp add: real_torch_def add_pos_pos)

lemma forward_output_open_unit_interval_exact:
  fixes fw :: "(real, 'g) torch"
  assumes "construct fw init num_users num_items hp = Inr m"
    and "model s = m \<or> model s = eval_mode m"
    and "f_sigmoid fw = f_sigmoid real_torch"
    and "fst (forward fw s xs ae cf) = Inr out"
  shows "list_all (\<lambda>r. \<exists>y. r = [y] \<and> 0 < y \<and> y < 1) (rows out)"
  using forward_output_shape [OF assms(1,2,4)] exact_sigmoid_unit_interval
  unfolding assms(3) list_all_iff by blast























end
